theory Spec2Isabelle
  imports Main "HOL-Library.Word"
begin

unbundle bit_operations_syntax

section \<open>The style layer\<close>

text \<open>
  Modelled from the spec: the style layer (\<^verbatim>\<open>escape_sequence.hpp\<close> is not among the
  sources). The spec describes it as pure string-wrapping functions keyed by semantic
  category (\<^verbatim>\<open>number\<close>, \<^verbatim>\<open>signed_number\<close>, \<^verbatim>\<open>character\<close>, \<^verbatim>\<open>escaped_char\<close>,
  \<^verbatim>\<open>operator\<close>, \<^verbatim>\<open>bracket(depth)\<close>, \<^verbatim>\<open>member\<close>, \<^verbatim>\<open>reserved\<close>) that add markup of no
  visible width. A \<^verbatim>\<open>std::string\<close> built by the formatters is therefore kept as a list of
  pieces: text wrapped by one of the \<^verbatim>\<open>es::\<close> functions carries the category it was wrapped
  with, text appended as it is carries none.
\<close>

datatype es_category =
    Reserved | Number | Signed_number | Character | Escaped_char | Op | Bracket nat | Member

datatype piece = Raw string | Styled es_category string

type_synonym styled = "piece list"

fun piece_text :: "piece \<Rightarrow> string" where
  "piece_text (Raw s) = s"
| "piece_text (Styled k s) = s"

text \<open>The visible text of a string: what is left when the markup is ignored.\<close>

definition plain :: "styled \<Rightarrow> string" where
  "plain out = concat (map piece_text out)"

definition es_reserved :: "string \<Rightarrow> styled" where
  "es_reserved s = [Styled Reserved s]"

definition es_number :: "string \<Rightarrow> styled" where
  "es_number s = [Styled Number s]"

definition es_signed_number :: "string \<Rightarrow> styled" where
  "es_signed_number s = [Styled Signed_number s]"

definition es_character :: "string \<Rightarrow> styled" where
  "es_character s = [Styled Character s]"

definition es_escaped_char :: "string \<Rightarrow> styled" where
  "es_escaped_char s = [Styled Escaped_char s]"

definition es_op :: "string \<Rightarrow> styled" where
  "es_op s = [Styled Op s]"

definition es_bracket :: "string \<Rightarrow> nat \<Rightarrow> styled" where
  "es_bracket s depth = [Styled (Bracket depth) s]"

definition es_member :: "string \<Rightarrow> styled" where
  "es_member s = [Styled Member s]"

section \<open>The formatting command\<close>

text \<open>
  \<^verbatim>\<open>export_command.hpp\<close> is not among the sources; the formatters read the command only
  through its accessors, which are the fields below. The enumeration \<^verbatim>\<open>bool_style_t\<close> has
  the three members the boolean formatter names and the one its \<^verbatim>\<open>default:\<close> branch
  stands for (the spec's numeric style). An integer style is the tuple the integer formatter
  destructures: base, digits, chunk, space_fill, make_unsigned_or_no_space_for_minus.
  \<^verbatim>\<open>format\<close> is the command's custom number format; it returns the empty string when
  it has nothing to say.
\<close>

datatype bool_style_t = normal | true_left | true_right | number

type_synonym int_style_t = "nat \<times> nat \<times> nat \<times> bool \<times> bool"

record export_command =
  bool_style :: bool_style_t
  char_as_hex :: bool
  int_style :: "int_style_t option"
  format :: "int \<Rightarrow> string"
  show_index :: bool

section \<open>Booleans\<close>

definition export_arithmetic_bool :: "bool \<Rightarrow> export_command \<Rightarrow> styled" where
  "export_arithmetic_bool bool_value command =
     (case bool_style command of
        normal \<Rightarrow> es_reserved (if bool_value then ''true'' else ''false'')
      | true_left \<Rightarrow> es_reserved (if bool_value then ''true '' else ''false'')
      | true_right \<Rightarrow> es_reserved (if bool_value then '' true'' else ''false'')
      | number \<Rightarrow> es_number (if bool_value then ''1'' else ''0''))"

section \<open>Characters\<close>

text \<open>
  \<^verbatim>\<open>std::isprint\<close> on the byte value, in the "C" locale: the codes from space to tilde.
\<close>

definition isprint :: "char \<Rightarrow> bool" where
  "isprint c = (32 \<le> (of_char c :: nat) \<and> (of_char c :: nat) \<le> 126)"

definition need_escape :: "char \<Rightarrow> bool" where
  "need_escape char_value =
     (\<not> isprint char_value \<or> char_value = CHR 0x27 \<or> char_value = CHR 0x5C)"

definition to_hex_char :: "nat \<Rightarrow> char" where
  "to_hex_char c = (if c < 10 then char_of (of_char CHR ''0'' + c)
                    else char_of (of_char CHR ''A'' + (c - 10)))"

text \<open>
  The character formatter. \<^verbatim>\<open>escape_non_printable_char\<close> is declared outside the sources
  and is a parameter here. The two nibbles are taken from the byte value of the character:
  \<^verbatim>\<open>(char_value >> 4) & 0x0f\<close> and \<^verbatim>\<open>char_value & 0x0f\<close> give the same bits whether
  \<^verbatim>\<open>char\<close> is signed or not.
\<close>

definition export_arithmetic_char ::
  "(char \<Rightarrow> string) \<Rightarrow> char \<Rightarrow> export_command \<Rightarrow> styled" where
  "export_arithmetic_char escape_non_printable_char char_value command =
     (let is_printable = isprint char_value;
          need_esc = (\<not> is_printable \<or> char_value = CHR 0x27 \<or> char_value = CHR 0x5C);
          output =
            (if need_esc then
               (let escaped_char =
                      (if is_printable then [CHR 0x5C, char_value]
                       else escape_non_printable_char char_value)
                in if char_as_hex command \<and> length escaped_char > 2
                   then [Raw (replicate 4 CHR '' '')]
                   else es_character [CHR 0x27] @ es_escaped_char escaped_char
                        @ es_character [CHR 0x27])
             else es_character [CHR 0x27, char_value, CHR 0x27])
      in if \<not> char_as_hex command then output
         else
           (let output = (if \<not> need_esc then output @ [Raw '' ''] else output);
                upper = to_hex_char (drop_bit 4 (of_char char_value :: nat) AND 0x0f);
                lower = to_hex_char ((of_char char_value :: nat) AND 0x0f)
            in output @ es_number [CHR ''0'', CHR ''x'', upper, lower]))"

section \<open>Integers\<close>

text \<open>
  An integral type \<^verbatim>\<open>T\<close> is given by its signedness and its width \<^verbatim>\<open>sizeof(T) * 8\<close>; a
  value of the type is an \<open>int\<close> between its limits. \<^verbatim>\<open>unsigned int\<close> has 32 bits.
\<close>

record int_type =
  is_signed :: bool
  bits :: nat

definition numeric_limits_max :: "int_type \<Rightarrow> int" where
  "numeric_limits_max T = (if is_signed T then 2 ^ (bits T - 1) - 1 else 2 ^ bits T - 1)"

definition numeric_limits_min :: "int_type \<Rightarrow> int" where
  "numeric_limits_min T = (if is_signed T then - (2 ^ (bits T - 1)) else 0)"


text \<open>\<^verbatim>\<open>static_cast<std::make_unsigned_t<T>>(v)\<close>: the value modulo \<open>2 ^ bits\<close>.\<close>

definition to_unsigned :: "int_type \<Rightarrow> int \<Rightarrow> nat" where
  "to_unsigned T v = nat (v mod 2 ^ bits T)"

text \<open>
  The standard library's numerals: \<^verbatim>\<open>std::to_string\<close> and the stream insertion of an
  unsigned integer after \<^verbatim>\<open>std::setbase(base) << std::uppercase\<close>. \<^verbatim>\<open>setbase\<close> selects
  octal for 8 and hexadecimal for 16, and decimal for every other argument.
\<close>

definition digit_char :: "nat \<Rightarrow> char" where
  "digit_char d = (if d < 10 then char_of (of_char CHR ''0'' + d)
                   else char_of (of_char CHR ''A'' + (d - 10)))"

function show_nat :: "nat \<Rightarrow> nat \<Rightarrow> string" where
  "show_nat b n = (if n < b \<or> b < 2 then [digit_char n]
                   else show_nat b (n div b) @ [digit_char (n mod b)])"
  by pat_completeness auto
termination
  by (relation "measure (\<lambda>(b, n). n)") auto

declare show_nat.simps [simp del]

definition to_string :: "int \<Rightarrow> string" where
  "to_string v = (if v < 0 then CHR ''-'' # show_nat 10 (nat (- v)) else show_nat 10 (nat v))"

definition stream_setbase_uppercase :: "nat \<Rightarrow> nat \<Rightarrow> string" where
  "stream_setbase_uppercase base abs_value =
     (if base = 8 then show_nat 8 abs_value
      else if base = 16 then show_nat 16 abs_value
      else show_nat 10 abs_value)"

text \<open>
  \<^verbatim>\<open>_get_max_digits_aux\<close> is \<^verbatim>\<open>constexpr\<close> and the source instantiates it at the literal
  bases 2, 8, 10 and 16 only; the test \<open>base < 2\<close> stands for the instances that are
  never made (they would not end).
\<close>

function get_max_digits_aux :: "nat \<Rightarrow> nat \<Rightarrow> nat" where
  "get_max_digits_aux num base =
     (if num = 0 \<or> base < 2 then 0 else 1 + get_max_digits_aux (num div base) base)"
  by pat_completeness auto
termination
  by (relation "measure (\<lambda>(num, base). num)") auto

declare get_max_digits_aux.simps [simp del]

definition get_max_digits :: "int_type \<Rightarrow> nat \<Rightarrow> nat" where
  "get_max_digits T base =
     (let T_max = max (to_unsigned T (numeric_limits_max T))
                      (to_unsigned T (numeric_limits_min T))
      in if base = 2 then get_max_digits_aux T_max 2
         else if base = 8 then get_max_digits_aux T_max 8
         else if base = 10 then get_max_digits_aux T_max 10
         else get_max_digits_aux T_max 16)"

text \<open>The binary branch of \<^verbatim>\<open>_abs_to_reversed_str\<close>: \<^verbatim>\<open>while (is_first || abs)\<close>.\<close>

function binary_loop :: "bool \<Rightarrow> nat \<Rightarrow> string \<Rightarrow> string" where
  "binary_loop is_first abs_value reversed =
     (if is_first \<or> abs_value \<noteq> 0
      then binary_loop False (drop_bit 1 abs_value)
             (reversed @ [char_of ((abs_value AND 1) + of_char CHR ''0'')])
      else reversed)"
  by pat_completeness auto
termination
  by (relation "measure (\<lambda>(is_first, abs_value, reversed). abs_value + (if is_first then 1 else 0))")
     (auto simp: drop_bit_eq_div)

declare binary_loop.simps [simp del]

definition abs_to_reversed_str :: "nat \<Rightarrow> nat \<Rightarrow> string" where
  "abs_to_reversed_str abs_value base =
     (if base = 10 then rev (to_string (int abs_value))
      else if base = 2 then binary_loop True abs_value []
      else rev (stream_setbase_uppercase base abs_value))"

text \<open>
  \<^verbatim>\<open>_chunk_string\<close>. Its loop advances \<^verbatim>\<open>pos\<close> by \<^verbatim>\<open>chunk\<close>; with \<open>chunk = 0\<close> and
  input left it never ends, which is the value \<open>None\<close>. For base 10 the last separator is
  popped; the formatter never passes an empty input, for which \<^verbatim>\<open>pop_back\<close> would have
  nothing to pop.
\<close>

function chunk_loop :: "string \<Rightarrow> nat \<Rightarrow> nat \<Rightarrow> string \<Rightarrow> string option" where
  "chunk_loop input chunk pos output =
     (if pos < length input
      then (if chunk = 0 then None
            else chunk_loop input chunk (pos + chunk)
                   (output @ take chunk (drop pos input) @ '' ''))
      else Some output)"
  by pat_completeness auto
termination
  by (relation "measure (\<lambda>(input, chunk, pos, output). length input - pos)") auto

declare chunk_loop.simps [simp del]

definition chunk_string :: "string \<Rightarrow> nat \<Rightarrow> nat \<Rightarrow> string option" where
  "chunk_string input base chunk =
     (case chunk_loop input chunk 0 [] of
        None \<Rightarrow> None
      | Some output \<Rightarrow> Some (if base = 10 then butlast output else output))"

definition get_reversed_prefix :: "nat \<Rightarrow> string" where
  "get_reversed_prefix base =
     (if base = 2 then ''b0'' else if base = 8 then ''o0'' else ''x0'')"

text \<open>
  The integer formatter, for a value of the integral type \<open>T\<close>. The magnitude is held in
  \<^verbatim>\<open>UnsignedTOrInt\<close>, the wider of \<^verbatim>\<open>make_unsigned_t<T>\<close> and \<^verbatim>\<open>unsigned int\<close>.
  \<^verbatim>\<open>std::abs\<close> of the least value of a type as wide as \<^verbatim>\<open>int\<close> or wider has no defined
  result in C++; the model takes the two's complement one, which the conversion to the
  unsigned type turns into the magnitude. The result is \<open>None\<close> only where a loop of the
  source would not end.
\<close>

definition export_arithmetic_int ::
  "int_type \<Rightarrow> int \<Rightarrow> export_command \<Rightarrow> styled option" where
  "export_arithmetic_int T v command =
     (case int_style command of
        None \<Rightarrow>
          (let output = format command v
           in if output = [] then Some (es_signed_number (to_string v))
              else Some (es_signed_number output))
      | Some (base, digits, chunk, space_fill, make_unsigned_or_no_space_for_minus) \<Rightarrow>
          if base = 10 \<and> digits = 0 \<and> chunk = 0
          then Some (es_signed_number (to_string v))
          else
            (let max_digits = get_max_digits T base;
                 digits = (if digits > max_digits then max_digits else digits);
                 chunk = (if chunk > max_digits then 0 else chunk);
                 make_unsigned =
                   (is_signed T \<and> base \<noteq> 10 \<and> make_unsigned_or_no_space_for_minus);
                 add_extra_space =
                   (\<not> (\<not> is_signed T \<or> make_unsigned_or_no_space_for_minus));
                 abs_value = (if is_signed T
                        then (if make_unsigned then to_unsigned T v
                              else nat (\<bar>v\<bar> mod 2 ^ max (bits T) 32))
                        else nat v);
                 output = abs_to_reversed_str abs_value base;
                 need_minus = (\<not> make_unsigned \<and> v < 0);
                 minus_before_fill = (base = 10 \<and> space_fill);
                 output = (if need_minus \<and> minus_before_fill then output @ ''-''
                           else output);
                 output = (if length output < digits
                           then output @ replicate (digits - length output)
                                           (if space_fill then CHR '' '' else CHR ''0'')
                           else output);
                 length_was_below_digits = (length output \<le> digits)
             in case (if chunk > 0 then chunk_string output base chunk else Some output) of
                  None \<Rightarrow> None
                | Some output \<Rightarrow>
                    (let output = (if base \<noteq> 10 then output @ get_reversed_prefix base
                                   else output);
                         output = (if need_minus \<and> \<not> minus_before_fill then output @ ''-''
                                   else if length_was_below_digits \<and> add_extra_space
                                   then output @ '' ''
                                   else output);
                         output = es_signed_number (rev output)
                     in Some (if make_unsigned then output @ es_op '' u'' else output))))"

section \<open>Containers\<close>

text \<open>
  Modelled from the spec: the helpers of \<^verbatim>\<open>utility.hpp\<close>, which is not among the sources.
  Widths are visible widths, measured without the markup; the last line of a string is
  what follows its last newline.
\<close>

definition get_length :: "styled \<Rightarrow> nat" where
  "get_length s = length (plain s)"

definition has_newline :: "styled \<Rightarrow> bool" where
  "has_newline s = (CHR 0x0A \<in> set (plain s))"

definition get_last_line_length :: "styled \<Rightarrow> nat" where
  "get_last_line_length s = length (takeWhile (\<lambda>c. c \<noteq> CHR 0x0A) (rev (plain s)))"

text \<open>
  The global options the container formatter reads (\<^verbatim>\<open>options.hpp\<close> is not among the
  sources).
\<close>

datatype cont_indent_style_t = minimal | when_nested | when_non_tuples_nested | always

record options =
  max_line_width :: nat
  max_depth :: nat
  cont_indent_style :: cont_indent_style_t

text \<open>
  What the container formatter consumes from outside: the dispatcher \<^verbatim>\<open>export_var\<close>
  (arguments: element, indent, last_line_length, current_depth, fail_on_newline, command),
  \<^verbatim>\<open>command.next()\<close>, \<^verbatim>\<open>command.create_skip_container\<close>, and the two type predicates on
  the element type. An entry of the skipped container is the triple the loops destructure:
  \<^verbatim>\<open>is_ellipsis\<close>, the element \<^verbatim>\<open>*it\<close>, and \<^verbatim>\<open>index_\<close>.
\<close>

type_synonym 'a skip_entry = "bool \<times> 'a \<times> nat"

record 'a collaborators =
  export_var :: "'a \<Rightarrow> string \<Rightarrow> nat \<Rightarrow> nat \<Rightarrow> bool \<Rightarrow> export_command \<Rightarrow> styled"
  next_command :: "export_command \<Rightarrow> export_command"
  create_skip_container :: "export_command \<Rightarrow> 'a list \<Rightarrow> 'a skip_entry list"
  elem_is_iterable_like :: bool
  elem_is_tuple :: bool

text \<open>
  The iterable abstraction on a sequence: the iterators are positions, \<^verbatim>\<open>begin\<close> the first
  and \<^verbatim>\<open>end\<close> the one past the last.
\<close>

definition iterable_begin :: "'a list \<Rightarrow> nat" where
  "iterable_begin t = 0"

definition iterable_end :: "'a list \<Rightarrow> nat" where
  "iterable_end t = length t"

definition is_empty_iterable :: "'a list \<Rightarrow> bool" where
  "is_empty_iterable t = (\<not> (iterable_begin t \<noteq> iterable_end t))"

text \<open>
  The single-line loop, from the entry it has reached, with the values of \<^verbatim>\<open>is_first_elem\<close>
  and \<^verbatim>\<open>output\<close>. \<open>None\<close> is the exit through \<^verbatim>\<open>shift_indent = true; break\<close>.
\<close>

fun one_line_loop ::
  "'a collaborators \<Rightarrow> options \<Rightarrow> export_command \<Rightarrow> string \<Rightarrow> nat \<Rightarrow> nat \<Rightarrow>
   'a skip_entry list \<Rightarrow> bool \<Rightarrow> styled \<Rightarrow> styled option" where
  "one_line_loop E opts command indent last_line_length current_depth [] is_first_elem output =
     Some output"
| "one_line_loop E opts command indent last_line_length current_depth
     ((is_ellipsis, elem, index) # rest) is_first_elem output =
     (let output = (if is_first_elem then output else output @ es_op '', '')
      in if is_ellipsis then
           (let output = output @ es_op ''...''
            in if last_line_length + get_length output + length '' ]'' > max_line_width opts
               then None
               else one_line_loop E opts command indent last_line_length current_depth
                      rest False output)
         else
           (let output = (if show_index command
                          then output @ es_member (to_string (int index)) @ es_op '': ''
                          else output);
                elem_str = export_var E elem indent (last_line_length + get_length output)
                             (current_depth + 1) True (next_command E command)
            in if has_newline elem_str then None
               else
                 (let output = output @ elem_str
                  in if last_line_length + get_length output + length '' ]''
                          > max_line_width opts
                     then None
                     else one_line_loop E opts command indent last_line_length current_depth
                            rest False output)))"

text \<open>The multi-line loop, in the same way.\<close>

fun multi_line_loop ::
  "'a collaborators \<Rightarrow> export_command \<Rightarrow> string \<Rightarrow> nat \<Rightarrow>
   'a skip_entry list \<Rightarrow> bool \<Rightarrow> styled \<Rightarrow> styled" where
  "multi_line_loop E command new_indent current_depth [] is_first_elem output = output"
| "multi_line_loop E command new_indent current_depth
     ((is_ellipsis, elem, index) # rest) is_first_elem output =
     (let output = (if is_first_elem then output else output @ es_op '','')
      in if is_ellipsis then
           multi_line_loop E command new_indent current_depth rest False
             (output @ [Raw [CHR 0x0A], Raw new_indent] @ es_op ''...'')
         else
           (let output = output @ [Raw [CHR 0x0A], Raw new_indent];
                output = (if show_index command
                          then output @ es_member (to_string (int index)) @ es_op '': ''
                          else output)
            in multi_line_loop E command new_indent current_depth rest False
                 (output @ export_var E elem new_indent (get_last_line_length output)
                             (current_depth + 1) False (next_command E command))))"

text \<open>The indent-shift decision taken from the policy and the kind of the elements.\<close>

definition shift_indent_policy :: "'a collaborators \<Rightarrow> options \<Rightarrow> bool" where
  "shift_indent_policy E opts =
     (if cont_indent_style opts = always then True
      else if cont_indent_style opts = when_nested then elem_is_iterable_like E
      else if cont_indent_style opts = when_non_tuples_nested
      then elem_is_iterable_like E \<and> \<not> elem_is_tuple E
      else False)"

definition export_container ::
  "'a collaborators \<Rightarrow> options \<Rightarrow> 'a list \<Rightarrow> string \<Rightarrow> nat \<Rightarrow> nat \<Rightarrow> bool \<Rightarrow>
   export_command \<Rightarrow> styled" where
  "export_container E opts container indent last_line_length current_depth fail_on_newline
     command =
     (if is_empty_iterable container then es_bracket ''[ ]'' current_depth
      else if current_depth \<ge> max_depth opts
      then es_bracket ''[ '' current_depth @ es_op ''...'' @ es_bracket '' ]'' current_depth
      else
        (let skipped_container = create_skip_container E command container;
             shift_indent = shift_indent_policy E opts
         in case (if \<not> shift_indent
                  then one_line_loop E opts command indent last_line_length current_depth
                         skipped_container True (es_bracket ''[ '' current_depth)
                  else None) of
              Some output \<Rightarrow> output @ es_bracket '' ]'' current_depth
            | None \<Rightarrow>
                if fail_on_newline then [Raw [CHR 0x0A]]
                else
                  (let new_indent = indent @ ''  '';
                       output = multi_line_loop E command new_indent current_depth
                                  skipped_container True (es_bracket ''['' current_depth)
                   in output @ [Raw [CHR 0x0A], Raw indent]
                        @ es_bracket '']'' current_depth)))"

section \<open>The two layouts\<close>

text \<open>
  The layout the properties of the container formatter speak of, written from the words of
  the specification and not from the loops above: the single-line candidate is the opening
  bracket, the entries separated by \<open>, \<close> (an ellipsis for an elision marker; otherwise the
  index label, when enabled, and the element as the dispatcher renders it at the column it
  starts in) and the closing bracket, with no test of width or newline on the way.
  \<open>child_renderings\<close> are the renderings of the elements in that candidate.

  The multi-line layout is the opening bracket, one line for each entry at the caller's
  indent plus two spaces, a comma after every line but the last, and the closing bracket
  on a line of its own at the caller's indent. The line of an elision marker holds the
  ellipsis alone; the line of an element holds its index label, when enabled, and the
  element as the dispatcher renders it at the column it starts in, at the deeper indent
  and with \<^verbatim>\<open>fail_on_newline\<close> cleared.
\<close>

fun candidate_loop ::
  "'a collaborators \<Rightarrow> export_command \<Rightarrow> string \<Rightarrow> nat \<Rightarrow> nat \<Rightarrow>
   'a skip_entry list \<Rightarrow> bool \<Rightarrow> styled \<Rightarrow> styled" where
  "candidate_loop E command indent last_line_length current_depth [] is_first_elem output =
     output"
| "candidate_loop E command indent last_line_length current_depth
     ((is_ellipsis, elem, index) # rest) is_first_elem output =
     (let output = (if is_first_elem then output else output @ es_op '', '')
      in if is_ellipsis then
           candidate_loop E command indent last_line_length current_depth rest False
             (output @ es_op ''...'')
         else
           (let output = (if show_index command
                          then output @ es_member (to_string (int index)) @ es_op '': ''
                          else output)
            in candidate_loop E command indent last_line_length current_depth rest False
                 (output @ export_var E elem indent (last_line_length + get_length output)
                             (current_depth + 1) True (next_command E command))))"

fun child_renderings ::
  "'a collaborators \<Rightarrow> export_command \<Rightarrow> string \<Rightarrow> nat \<Rightarrow> nat \<Rightarrow>
   'a skip_entry list \<Rightarrow> bool \<Rightarrow> styled \<Rightarrow> styled list" where
  "child_renderings E command indent last_line_length current_depth [] is_first_elem output =
     []"
| "child_renderings E command indent last_line_length current_depth
     ((is_ellipsis, elem, index) # rest) is_first_elem output =
     (let output = (if is_first_elem then output else output @ es_op '', '')
      in if is_ellipsis then
           child_renderings E command indent last_line_length current_depth rest False
             (output @ es_op ''...'')
         else
           (let output = (if show_index command
                          then output @ es_member (to_string (int index)) @ es_op '': ''
                          else output);
                elem_str = export_var E elem indent (last_line_length + get_length output)
                             (current_depth + 1) True (next_command E command)
            in elem_str # child_renderings E command indent last_line_length current_depth
                            rest False (output @ elem_str)))"

definition one_line_candidate ::
  "'a collaborators \<Rightarrow> export_command \<Rightarrow> string \<Rightarrow> nat \<Rightarrow> nat \<Rightarrow>
   'a skip_entry list \<Rightarrow> styled" where
  "one_line_candidate E command indent last_line_length current_depth entries =
     candidate_loop E command indent last_line_length current_depth entries True
       (es_bracket ''[ '' current_depth)
     @ es_bracket '' ]'' current_depth"

definition one_line_children ::
  "'a collaborators \<Rightarrow> export_command \<Rightarrow> string \<Rightarrow> nat \<Rightarrow> nat \<Rightarrow>
   'a skip_entry list \<Rightarrow> styled list" where
  "one_line_children E command indent last_line_length current_depth entries =
     child_renderings E command indent last_line_length current_depth entries True
       (es_bracket ''[ '' current_depth)"

definition index_label :: "export_command \<Rightarrow> nat \<Rightarrow> styled" where
  "index_label command index =
     (if show_index command then es_member (to_string (int index)) @ es_op '': '' else [])"

fun entry_text ::
  "'a collaborators \<Rightarrow> export_command \<Rightarrow> string \<Rightarrow> nat \<Rightarrow> 'a skip_entry \<Rightarrow> styled" where
  "entry_text E command new_indent current_depth (is_ellipsis, elem, index) =
     (if is_ellipsis then es_op ''...''
      else index_label command index
           @ export_var E elem new_indent
               (get_last_line_length (Raw new_indent # index_label command index))
               (current_depth + 1) False (next_command E command))"

definition entry_line ::
  "'a collaborators \<Rightarrow> export_command \<Rightarrow> string \<Rightarrow> nat \<Rightarrow> 'a skip_entry \<Rightarrow> styled" where
  "entry_line E command new_indent current_depth entry =
     [Raw [CHR 0x0A], Raw new_indent] @ entry_text E command new_indent current_depth entry"

definition comma_separated :: "styled list \<Rightarrow> styled" where
  "comma_separated lines =
     (case lines of [] \<Rightarrow> [] | l # ls \<Rightarrow> l @ concat (map (\<lambda>x. es_op '','' @ x) ls))"

definition multi_line_layout ::
  "'a collaborators \<Rightarrow> export_command \<Rightarrow> string \<Rightarrow> nat \<Rightarrow> 'a skip_entry list \<Rightarrow> styled" where
  "multi_line_layout E command indent current_depth entries =
     es_bracket ''['' current_depth
     @ comma_separated (map (entry_line E command (indent @ ''  '') current_depth) entries)
     @ [Raw [CHR 0x0A], Raw indent] @ es_bracket '']'' current_depth"

section \<open>Concrete collaborators\<close>

text \<open>
  A command with every toggle off, a skip plan that shows every element under its own
  index, and the collaborators of a container of booleans: the dispatcher sends a boolean
  to the boolean formatter, and a boolean is neither iterable nor a tuple.
\<close>

definition default_command :: export_command where
  "default_command =
     \<lparr>bool_style = normal, char_as_hex = False, int_style = None,
      format = (\<lambda>v. []), show_index = False\<rparr>"

definition show_all :: "export_command \<Rightarrow> 'a list \<Rightarrow> 'a skip_entry list" where
  "show_all command container =
     map (\<lambda>(index, elem). (False, elem, index)) (enumerate 0 container)"

definition bool_elements :: "bool collaborators" where
  "bool_elements =
     \<lparr>export_var = (\<lambda>elem indent last_line_length current_depth fail_on_newline command.
                      export_arithmetic_bool elem command),
      next_command = (\<lambda>command. command),
      create_skip_container = show_all,
      elem_is_iterable_like = False,
      elem_is_tuple = False\<rparr>"

text \<open>A container of containers of booleans: the dispatcher sends an element to the
  container formatter.\<close>

definition nested_bool_elements :: "options \<Rightarrow> bool list collaborators" where
  "nested_bool_elements opts =
     \<lparr>export_var = (\<lambda>elem indent last_line_length current_depth fail_on_newline command.
                      export_container bool_elements opts elem indent last_line_length
                        current_depth fail_on_newline command),
      next_command = (\<lambda>command. command),
      create_skip_container = show_all,
      elem_is_iterable_like = True,
      elem_is_tuple = False\<rparr>"

text \<open>Options of a given maximum width, with the policy that never forces indentation.\<close>

definition options_of_width :: "nat \<Rightarrow> options" where
  "options_of_width w = \<lparr>max_line_width = w, max_depth = 4, cont_indent_style = minimal\<rparr>"

section \<open>Reading a rendered integer\<close>



fun signed_number_text :: "styled \<Rightarrow> string" where
  "signed_number_text [] = []"
| "signed_number_text (Styled Signed_number s # rest) = s @ signed_number_text rest"
| "signed_number_text (p # rest) = signed_number_text rest"

abbreviation (input) numeral_char :: "char \<Rightarrow> bool" where
  "numeral_char \<equiv> (\<lambda>c. c \<noteq> CHR '' '' \<and> c \<noteq> CHR ''-'')"

definition numeral_portion :: "nat \<Rightarrow> styled \<Rightarrow> string" where
  "numeral_portion base out =
     (let digits_and_prefix = filter numeral_char (signed_number_text out)
      in if base = 10 then digits_and_prefix else drop 2 digits_and_prefix)"

text \<open>
  The largest magnitude of a type, the one \<open>max_digits\<close> is the number of digits of:
  \<open>2 ^ (bits - 1)\<close>, the magnitude of the least value, for a signed type, and the greatest
  value \<open>2 ^ bits - 1\<close> for an unsigned one.
\<close>

definition largest_magnitude :: "int_type \<Rightarrow> nat" where
  "largest_magnitude T = (if is_signed T then 2 ^ (bits T - 1) else 2 ^ bits T - 1)"

text \<open>The radix \<^verbatim>\<open>_abs_to_reversed_str\<close> writes in, and the characters a numeral is made of.\<close>

definition radix_used :: "nat \<Rightarrow> nat" where
  "radix_used base = (if base = 2 \<or> base = 8 \<or> base = 16 then base else 10)"

definition visible_digit :: "char \<Rightarrow> bool" where
  "visible_digit c = (48 \<le> (of_char c :: nat))"

section \<open>Properties of the boolean and character formatters\<close>

text \<open>
  C8, as stated, fails for the numeric style: \<open>1\<close> and \<open>0\<close> are wrapped as a number token,
  not as a reserved word. Here the boolean \<open>true\<close> under the numeric style.
\<close>

theorem export_arithmetic_bool_number_not_reserved:
  "export_arithmetic_bool True (default_command\<lparr>bool_style := number\<rparr>) = [Styled Number ''1'']
   \<and> export_arithmetic_bool True (default_command\<lparr>bool_style := number\<rparr>) \<noteq> es_reserved ''1''"
  by (simp add: export_arithmetic_bool_def es_number_def es_reserved_def)

text \<open>
  C8, amended: for every boolean and every command, the boolean formatter returns
  \<open>true\<close>/\<open>false\<close> for the normal style, \<open>true \<close>/\<open>false\<close> for the left-aligned pair and
  \<open> true\<close>/\<open>false\<close> for the right-aligned pair, each wrapped as a reserved-word token, and
  \<open>1\<close>/\<open>0\<close> for the numeric style, wrapped as a number token.
\<close>

theorem export_arithmetic_bool_styles:
  "export_arithmetic_bool b (command\<lparr>bool_style := normal\<rparr>)
     = [Styled Reserved (if b then ''true'' else ''false'')]
   \<and> export_arithmetic_bool b (command\<lparr>bool_style := true_left\<rparr>)
     = [Styled Reserved (if b then ''true '' else ''false'')]
   \<and> export_arithmetic_bool b (command\<lparr>bool_style := true_right\<rparr>)
     = [Styled Reserved (if b then '' true'' else ''false'')]
   \<and> export_arithmetic_bool b (command\<lparr>bool_style := number\<rparr>)
     = [Styled Number (if b then ''1'' else ''0'')]"
  by (simp add: export_arithmetic_bool_def es_number_def es_reserved_def)

lemma high_nibble: "drop_bit 4 (of_char c :: nat) AND 15 = of_char c div 16"
proof -
  have "(of_char c :: nat) < 256" by simp
  then have "(of_char c :: nat) div 16 < 16" by linarith
  then have "(of_char c div 16 :: nat) mod 16 = of_char c div 16" by simp
  moreover have "(n::nat) AND 15 = n mod 16" for n
    using take_bit_eq_mask[of 4 n] by (simp add: take_bit_eq_mod mask_eq_exp_minus_1)
  ultimately show ?thesis by (simp add: drop_bit_eq_div)
qed

lemma low_nibble: "(of_char c :: nat) AND 15 = of_char c mod 16"
  using take_bit_eq_mask[of 4 "of_char c :: nat"]
  by (simp add: take_bit_eq_mod mask_eq_exp_minus_1)

lemma four_blanks: "replicate 4 CHR '' '' = ''    ''"
  by (simp add: numeral_eq_Suc)

text \<open>The two hexadecimal digits are taken from \<open>0\<close> to \<open>9\<close> and \<open>A\<close> to \<open>F\<close>.\<close>

lemma to_hex_char_digits: "d < 16 \<Longrightarrow> to_hex_char d = ''0123456789ABCDEF'' ! d"
proof -
  assume "d < 16"
  then have "d = 0 \<or> d = 1 \<or> d = 2 \<or> d = 3 \<or> d = 4 \<or> d = 5 \<or> d = 6 \<or> d = 7
      \<or> d = 8 \<or> d = 9 \<or> d = 10 \<or> d = 11 \<or> d = 12 \<or> d = 13 \<or> d = 14 \<or> d = 15"
    by presburger
  then show ?thesis
    by (elim disjE) (simp_all add: to_hex_char_def char_of_eq_iff)
qed

text \<open>
  C9, as stated, fails for an escaped character: the apostrophe with the hex toggle set is
  rendered as the quoted escape sequence directly followed by \<open>0x27\<close>; no space separates
  the hex value from the primary rendering.
\<close>

theorem export_arithmetic_char_escaped_no_space:
  "plain (export_arithmetic_char (\<lambda>c. []) (CHR 0x27) (default_command\<lparr>char_as_hex := True\<rparr>))
     = plain (export_arithmetic_char (\<lambda>c. []) (CHR 0x27) default_command) @ ''0x27''
   \<and> plain (export_arithmetic_char (\<lambda>c. []) (CHR 0x27) (default_command\<lparr>char_as_hex := True\<rparr>))
     \<noteq> plain (export_arithmetic_char (\<lambda>c. []) (CHR 0x27) default_command) @ '' '' @ ''0x27''"
  by (simp add: export_arithmetic_char_def default_command_def isprint_def plain_def Let_def
        es_character_def es_escaped_char_def es_number_def to_hex_char_def char_of_eq_iff)

text \<open>
  C9, amended: for every character, when the char-as-hex toggle is set, the visible output
  ends with \<open>0x\<close> and the two uppercase hexadecimal digits of the byte value, the digit of
  the high nibble and the digit of the low nibble, each read from \<open>0123456789ABCDEF\<close>.
  Before it stands: the quoted character and one space, when the character needs no
  escape; the quoted escape sequence and no space, when the escape sequence has at most two
  characters; four blanks instead of the quoted literal, when the escape sequence is longer.
\<close>

theorem export_arithmetic_char_hex:
  "char_as_hex command \<Longrightarrow>
   plain (export_arithmetic_char escape_non_printable_char c command) =
     (if \<not> need_escape c then [CHR 0x27, c, CHR 0x27] @ '' ''
      else if length (if isprint c then [CHR 0x5C, c] else escape_non_printable_char c) > 2
      then ''    ''
      else [CHR 0x27] @ (if isprint c then [CHR 0x5C, c] else escape_non_printable_char c)
           @ [CHR 0x27])
     @ [CHR ''0'', CHR ''x'',
        ''0123456789ABCDEF'' ! (of_char c div 16), ''0123456789ABCDEF'' ! (of_char c mod 16)]"
proof -
  have "(of_char c :: nat) < 256" by simp
  then have hi: "(of_char c :: nat) div 16 < 16" by linarith
  have lo: "(of_char c :: nat) mod 16 < 16" by simp
  assume "char_as_hex command"
  then show ?thesis
    by (simp add: export_arithmetic_char_def need_escape_def plain_def Let_def es_character_def
        es_escaped_char_def es_number_def high_nibble low_nibble four_blanks
        to_hex_char_digits[OF hi] to_hex_char_digits[OF lo])
qed

theorem export_arithmetic_char_hex_witness:
  "char_as_hex (default_command\<lparr>char_as_hex := True\<rparr>)
   \<and> plain (export_arithmetic_char (\<lambda>c. [CHR 0x5C, CHR ''x'', CHR ''f'', CHR ''e'']) (CHR 0xFE)
              (default_command\<lparr>char_as_hex := True\<rparr>)) = ''    0xFE''
   \<and> plain (export_arithmetic_char (\<lambda>c. [CHR 0x5C, CHR ''n'']) (CHR 0x0A)
              (default_command\<lparr>char_as_hex := True\<rparr>))
       = [CHR 0x27, CHR 0x5C, CHR ''n'', CHR 0x27] @ ''0x0A''
   \<and> plain (export_arithmetic_char (\<lambda>c. []) CHR ''M'' (default_command\<lparr>char_as_hex := True\<rparr>))
       = [CHR 0x27, CHR ''M'', CHR 0x27] @ '' 0x4D''"
  using export_arithmetic_char_hex
          [of "default_command\<lparr>char_as_hex := True\<rparr>"
              "\<lambda>c. [CHR 0x5C, CHR ''x'', CHR ''f'', CHR ''e'']" "CHR 0xFE"]
        export_arithmetic_char_hex
          [of "default_command\<lparr>char_as_hex := True\<rparr>" "\<lambda>c. [CHR 0x5C, CHR ''n'']" "CHR 0x0A"]
        export_arithmetic_char_hex
          [of "default_command\<lparr>char_as_hex := True\<rparr>" "\<lambda>c. []" "CHR ''M''"]
  by (simp add: default_command_def need_escape_def isprint_def)

section \<open>Properties of the integer formatter\<close>

lemma export_arithmetic_int_styled_cong:
  "int_style c1 = Some sty \<Longrightarrow> int_style c2 = Some sty \<Longrightarrow>
   export_arithmetic_int T v c1 = export_arithmetic_int T v c2"
  by (simp add: export_arithmetic_int_def)

lemma minus_five_hex_closed:
  "export_arithmetic_int \<lparr>is_signed = True, bits = 8\<rparr> (- 5)
     \<lparr>bool_style = normal, char_as_hex = False, int_style = Some (16, 2, 0, False, False),
      format = (\<lambda>v. []), show_index = False\<rparr> = Some [Styled Signed_number ''-0x05'']"
  by code_simp

text \<open>
  C4: the signed 8-bit value \<open>-5\<close> under the integer style base 16, digits 2, chunk 0,
  space_fill false, unsigned false is rendered, markup ignored, as \<open>-0x05\<close>, whatever the
  other settings of the command.
\<close>

theorem export_arithmetic_minus_five_hex:
  "map_option plain
     (export_arithmetic_int \<lparr>is_signed = True, bits = 8\<rparr> (- 5)
        (command\<lparr>int_style := Some (16, 2, 0, False, False)\<rparr>)) = Some ''-0x05''"
proof -
  have "export_arithmetic_int \<lparr>is_signed = True, bits = 8\<rparr> (- 5)
          (command\<lparr>int_style := Some (16, 2, 0, False, False)\<rparr>)
        = Some [Styled Signed_number ''-0x05'']"
    using export_arithmetic_int_styled_cong
            [of "command\<lparr>int_style := Some (16, 2, 0, False, False)\<rparr>"
                "(16, 2, 0, False, False)"
                "\<lparr>bool_style = normal, char_as_hex = False,
                  int_style = Some (16, 2, 0, False, False),
                  format = (\<lambda>v. []), show_index = False\<rparr>"]
          minus_five_hex_closed
    by simp
  then show ?thesis by (simp add: plain_def)
qed

theorem export_arithmetic_minus_five_hex_witness:
  "map_option plain
     (export_arithmetic_int \<lparr>is_signed = True, bits = 8\<rparr> (- 5)
        (default_command\<lparr>show_index := True, int_style := Some (16, 2, 0, False, False)\<rparr>))
   = Some ''-0x05''"
  using export_arithmetic_minus_five_hex [of "default_command\<lparr>show_index := True\<rparr>"]
  by simp

text \<open>
  C10: with the integer style base 10, digits 0, chunk 0 the integer formatter returns
  \<^verbatim>\<open>std::to_string(value)\<close> as a signed-number token whatever the command's format function
  \<open>f\<close> is; with no integer style it returns what \<open>f\<close> gives, and \<^verbatim>\<open>std::to_string(value)\<close>
  only when \<open>f\<close> gives the empty string.
\<close>

theorem export_arithmetic_int_default_decimal:
  "export_arithmetic_int T v
     (command\<lparr>int_style := Some (10, 0, 0, space_fill, make_unsigned), format := f\<rparr>)
     = Some [Styled Signed_number (to_string v)]
   \<and> export_arithmetic_int T v (command\<lparr>int_style := None, format := f\<rparr>)
     = Some [Styled Signed_number (if f v = [] then to_string v else f v)]"
  by (simp add: export_arithmetic_int_def es_signed_number_def Let_def)

theorem export_arithmetic_int_default_decimal_witness:
  "export_arithmetic_int \<lparr>is_signed = True, bits = 8\<rparr> (- 5)
     (default_command\<lparr>int_style := Some (10, 0, 0, False, False), format := (\<lambda>v. ''five'')\<rparr>)
     = Some [Styled Signed_number ''-5'']
   \<and> export_arithmetic_int \<lparr>is_signed = True, bits = 8\<rparr> (- 5)
       (default_command\<lparr>int_style := None, format := (\<lambda>v. ''five'')\<rparr>)
     = Some [Styled Signed_number ''five'']"
proof -
  have "to_string (- 5) = ''-5''"
    by code_simp
  then show ?thesis
    using export_arithmetic_int_default_decimal
            [where T = "\<lparr>is_signed = True, bits = 8\<rparr>" and v = "- 5"
               and command = default_command and space_fill = False
               and make_unsigned = False and f = "\<lambda>v. ''five''"]
    by simp
qed

subsection \<open>Numerals\<close>

lemma of_char_digit_char:
  "d < 16 \<Longrightarrow> (of_char (digit_char d) :: nat) = (if d < 10 then 48 + d else 55 + d)"
  by (simp add: digit_char_def)


lemma visible_digit_char: "d < 16 \<Longrightarrow> visible_digit (digit_char d)"
  by (simp add: visible_digit_def of_char_digit_char)

lemma visible_digit_neq:
  "visible_digit c \<Longrightarrow> c \<noteq> CHR '' '' \<and> c \<noteq> CHR ''-'' \<and> c \<noteq> CHR 0x0A"
  by (auto simp: visible_digit_def)

lemma show_nat_visible:
  "2 \<le> b \<Longrightarrow> b \<le> 16 \<Longrightarrow> c \<in> set (show_nat b n) \<Longrightarrow> visible_digit c"
proof (induction b n rule: show_nat.induct)
  case (1 b n)
  show ?case
  proof (cases "n < b")
    case True
    then have "show_nat b n = [digit_char n]" by (simp add: show_nat.simps)
    with 1 True show ?thesis by (simp add: visible_digit_char)
  next
    case False
    then have eq: "show_nat b n = show_nat b (n div b) @ [digit_char (n mod b)]"
      using 1(2) by (simp add: show_nat.simps)
    have "n mod b < b" using 1(2) by simp
    then have "n mod b < 16" using 1(3) by linarith
    with 1 False eq show ?thesis by (auto simp: visible_digit_char)
  qed
qed




text \<open>The bit-by-bit loop writes the binary numeral, least significant digit first.\<close>

lemma binary_loop_show_nat:
  "binary_loop is_first n acc
     = acc @ (if n = 0 \<and> \<not> is_first then [] else rev (show_nat 2 n))"
proof (induction is_first n acc rule: binary_loop.induct)
  case (1 is_first n acc)
  show ?case
  proof (cases "is_first \<or> n \<noteq> 0")
    case False
    then show ?thesis by (simp add: binary_loop.simps)
  next
    case True
    have c: "char_of ((n AND 1) + of_char CHR ''0'') = digit_char (n mod 2)"
      by (simp add: digit_char_def and_one_eq add.commute)
    have "binary_loop is_first n acc
            = binary_loop False (drop_bit 1 n) (acc @ [digit_char (n mod 2)])"
      using True c by (subst binary_loop.simps) simp
    also have "\<dots> = (acc @ [digit_char (n mod 2)])
                      @ (if n div 2 = 0 then [] else rev (show_nat 2 (n div 2)))"
      using 1[OF True] c by (simp add: drop_bit_eq_div)
    also have "\<dots> = acc @ rev (show_nat 2 n)"
    proof (cases "n < 2")
      case True
      then have "show_nat 2 n = [digit_char n]" by (simp add: show_nat.simps)
      with True show ?thesis by simp
    next
      case False
      then have "show_nat 2 n = show_nat 2 (n div 2) @ [digit_char (n mod 2)]"
        by (simp add: show_nat.simps)
      moreover from False have "n div 2 \<noteq> 0" by simp
      ultimately show ?thesis by simp
    qed
    finally show ?thesis using True by auto
  qed
qed

lemma abs_to_reversed_str_show_nat:
  "abs_to_reversed_str n base = rev (show_nat (radix_used base) n)"
  by (simp add: abs_to_reversed_str_def radix_used_def to_string_def
        stream_setbase_uppercase_def binary_loop_show_nat)

lemma radix_used_bounds: "2 \<le> radix_used base \<and> radix_used base \<le> 16"
  by (simp add: radix_used_def)

lemma filter_visible_digits:
  "(\<And>c. c \<in> set s \<Longrightarrow> visible_digit c) \<Longrightarrow> filter numeral_char s = s"
  by (induction s) (auto dest: visible_digit_neq)

lemma filter_show_nat:
  "filter numeral_char (show_nat (radix_used base) n) = show_nat (radix_used base) n"
  using show_nat_visible radix_used_bounds filter_visible_digits by blast

subsection \<open>Chunks\<close>

text \<open>With a positive chunk the loop ends, and it adds nothing but blanks.\<close>

lemma chunk_loop_result:
  "0 < chunk \<Longrightarrow>
   \<exists>out. chunk_loop input chunk pos acc = Some out
       \<and> filter numeral_char out = filter numeral_char acc @ filter numeral_char (drop pos input)
       \<and> (pos < length input \<longrightarrow> out \<noteq> [] \<and> last out = CHR '' '')
       \<and> (length input \<le> pos \<longrightarrow> out = acc)"
proof (induction input chunk pos acc rule: chunk_loop.induct)
  case (1 input chunk pos acc)
  show ?case
  proof (cases "pos < length input")
    case False
    then show ?thesis by (simp add: chunk_loop.simps)
  next
    case True
    let ?acc = "acc @ take chunk (drop pos input) @ '' ''"
    have step: "chunk_loop input chunk pos acc = chunk_loop input chunk (pos + chunk) ?acc"
      using True 1(2) by (subst chunk_loop.simps) simp
    from 1(1)[OF True _ 1(2)] 1(2) obtain out where
      out: "chunk_loop input chunk (pos + chunk) ?acc = Some out"
      and f: "filter numeral_char out
                = filter numeral_char ?acc @ filter numeral_char (drop (pos + chunk) input)"
      and l: "pos + chunk < length input \<longrightarrow> out \<noteq> [] \<and> last out = CHR '' ''"
      and e: "length input \<le> pos + chunk \<longrightarrow> out = ?acc"
      by auto
    have "take chunk (drop pos input) @ drop (pos + chunk) input = drop pos input"
      by (metis append_take_drop_id drop_drop add.commute)
    then have "filter numeral_char (take chunk (drop pos input))
                 @ filter numeral_char (drop (pos + chunk) input)
               = filter numeral_char (drop pos input)"
      by (metis filter_append)
    then have "filter numeral_char ?acc @ filter numeral_char (drop (pos + chunk) input)
          = filter numeral_char acc @ filter numeral_char (drop pos input)"
      by simp
    moreover have "out \<noteq> [] \<and> last out = CHR '' ''"
      using l e by (cases "pos + chunk < length input") auto
    ultimately show ?thesis using step out f True by simp
  qed
qed

lemma chunk_string_result:
  assumes "0 < chunk"
  shows "\<exists>out. chunk_string input base chunk = Some out
           \<and> filter numeral_char out = filter numeral_char input"
proof -
  from chunk_loop_result[OF assms, of input 0 "[]"] obtain out where
    out: "chunk_loop input chunk 0 [] = Some out"
    and f: "filter numeral_char out = filter numeral_char input"
    and l: "0 < length input \<longrightarrow> out \<noteq> [] \<and> last out = CHR '' ''"
    and e: "length input \<le> 0 \<longrightarrow> out = []"
    by auto
  have "filter numeral_char (butlast out) = filter numeral_char out"
  proof (cases "input = []")
    case True
    with e show ?thesis by simp
  next
    case False
    with l have "out = butlast out @ '' ''"
      by (metis append_butlast_last_id length_greater_0_conv)
    then have "filter numeral_char out = filter numeral_char (butlast out @ '' '')" by simp
    then show ?thesis by simp
  qed
  with out f show ?thesis by (simp add: chunk_string_def)
qed

subsection \<open>The numeral portion of a styled integer\<close>

lemma signed_number_text_export:
  "signed_number_text (es_signed_number s @ (if mu then es_op '' u'' else [])) = s"
  by (simp add: es_signed_number_def es_op_def)

lemma filter_reversed_prefix:
  "filter numeral_char (get_reversed_prefix base) = get_reversed_prefix base
   \<and> length (get_reversed_prefix base) = 2"
  by (simp add: get_reversed_prefix_def)

text \<open>
  Past the two default-decimal exits the formatter returns, and the numeral portion of
  its result is the numeral of the magnitude, most significant digit first, after the
  zeros of the fill (a fill with spaces leaves nothing in the numeral portion).
\<close>

lemma export_arithmetic_int_numeral:
  assumes sty: "int_style command = Some (base, digits, chunk, space_fill, u)"
    and styled: "\<not> (base = 10 \<and> digits = 0 \<and> chunk = 0)"
    and av: "abs_value = (if is_signed T
                        then (if is_signed T \<and> base \<noteq> 10 \<and> u then to_unsigned T v
                              else nat (\<bar>v\<bar> mod 2 ^ max (bits T) 32))
                        else nat v)"
    and body: "body = show_nat (radix_used base) abs_value"
    and sign_len: "sign_len = (if \<not> (is_signed T \<and> base \<noteq> 10 \<and> u) \<and> v < 0
                                   \<and> base = 10 \<and> space_fill
                               then 1 else 0 :: nat)"
  shows "\<exists>out. export_arithmetic_int T v command = Some out
           \<and> numeral_portion base out
               = (if space_fill then []
                  else replicate (min digits (get_max_digits T base) - (length body + sign_len))
                         CHR ''0'')
                 @ body"
proof -
  define md where "md = get_max_digits T base"
  define d' where "d' = (if digits > md then md else digits)"
  define c' where "c' = (if chunk > md then 0 else chunk)"
  define mu where "mu = (is_signed T \<and> base \<noteq> 10 \<and> u)"
  define o1 where "o1 = abs_to_reversed_str abs_value base"
  define nm where "nm = (\<not> mu \<and> v < 0)"
  define mbf where "mbf = (base = 10 \<and> space_fill)"
  define o2 where "o2 = (if nm \<and> mbf then o1 @ ''-'' else o1)"
  define o3 where "o3 = (if length o2 < d'
                           then o2 @ replicate (d' - length o2)
                                           (if space_fill then CHR '' '' else CHR ''0'')
                           else o2)"
  define finish where "finish = (\<lambda>output.
                    (let output = (if base \<noteq> 10 then output @ get_reversed_prefix base
                                   else output);
                         output = (if nm \<and> \<not> mbf then output @ ''-''
                                   else if length o3 \<le> d' \<and> \<not> (\<not> is_signed T \<or> u)
                                   then output @ '' ''
                                   else output);
                         output = es_signed_number (rev output)
                     in Some (if mu then output @ es_op '' u'' else output)))"
  define sign where "sign = (if nm \<and> \<not> mbf then ''-''
                             else if length o3 \<le> d' \<and> \<not> (\<not> is_signed T \<or> u) then '' ''
                             else [])"
  obtain o4 where o4: "(if c' > 0 then chunk_string o3 base c' else Some o3) = Some o4"
    and f4: "filter numeral_char o4 = filter numeral_char o3"
    using chunk_string_result[of c' o3 base] by (cases "c' > 0") auto
  have "export_arithmetic_int T v command
      = (case (if c' > 0 then chunk_string o3 base c' else Some o3) of
           None \<Rightarrow> None | Some output \<Rightarrow> finish output)"
    unfolding export_arithmetic_int_def sty finish_def o3_def o2_def mbf_def nm_def o1_def av
      mu_def c'_def d'_def md_def Let_def
    by (simp only: option.case prod.case styled if_False)
  then have ex1: "export_arithmetic_int T v command = finish o4"
    by (simp only: o4 option.case)
  have "finish o4 = Some (es_signed_number
             (rev ((if base \<noteq> 10 then o4 @ get_reversed_prefix base else o4) @ sign))
              @ (if mu then es_op '' u'' else []))"
    by (simp add: finish_def sign_def Let_def)
  with ex1 have ex: "export_arithmetic_int T v command
      = Some (es_signed_number
                (rev ((if base \<noteq> 10 then o4 @ get_reversed_prefix base else o4) @ sign))
              @ (if mu then es_op '' u'' else []))"
    by simp
  have fsign: "filter numeral_char sign = []" by (simp add: sign_def)
  have np: "numeral_portion base
       (es_signed_number
          (rev ((if base \<noteq> 10 then o4 @ get_reversed_prefix base else o4) @ sign))
        @ (if mu then es_op '' u'' else [])) = rev (filter numeral_char o3)"
    unfolding numeral_portion_def signed_number_text_export
    using filter_reversed_prefix[of base] fsign f4 by (simp add: rev_filter[symmetric] Let_def)
  have o1: "o1 = rev body" by (simp add: o1_def body abs_to_reversed_str_show_nat)
  have fo1: "filter numeral_char o1 = o1"
    by (simp add: o1 body rev_filter[symmetric] filter_show_nat)
  have fo2: "filter numeral_char o2 = o1" by (simp add: o2_def fo1)
  have lo2: "length o2 = length body + sign_len"
    by (simp add: o2_def o1 sign_len nm_def mbf_def mu_def)
  have "filter numeral_char o3
          = o1 @ (if space_fill then [] else replicate (d' - length o2) CHR ''0'')"
    by (simp add: o3_def fo2)
  then have "rev (filter numeral_char o3)
          = (if space_fill then [] else replicate (d' - length o2) CHR ''0'') @ body"
    by (simp add: o1)
  moreover have "d' = min digits (get_max_digits T base)" by (simp add: d'_def md_def)
  ultimately show ?thesis using ex np lo2 by simp
qed





subsection \<open>The ceiling of the digit count\<close>

text \<open>
  \<^verbatim>\<open>_get_max_digits\<close> is the number of digits of the type's largest magnitude in the
  radix: the one \<open>m\<close> with \<open>base ^ (m - 1) \<le> magnitude < base ^ m\<close>.
\<close>

lemma get_max_digits_aux_bounds:
  "2 \<le> b \<Longrightarrow> 0 < n \<Longrightarrow>
   b ^ (get_max_digits_aux n b - 1) \<le> n \<and> n < b ^ get_max_digits_aux n b"
proof (induction n b rule: get_max_digits_aux.induct)
  case (1 num base)
  have step: "get_max_digits_aux num base = 1 + get_max_digits_aux (num div base) base"
    using 1(2,3) by (subst get_max_digits_aux.simps) simp
  show ?case
  proof (cases "num div base = 0")
    case True
    then have "get_max_digits_aux (num div base) base = 0"
      by (simp add: get_max_digits_aux.simps)
    moreover from True 1(2) have "num < base" by (simp add: div_eq_0_iff)
    ultimately show ?thesis using step 1(3) by simp
  next
    case False
    then have pos: "0 < num div base" by simp
    define k where "k = get_max_digits_aux (num div base) base"
    have ih: "base ^ (k - 1) \<le> num div base" "num div base < base ^ k"
      using 1(1)[OF _ 1(2) pos] 1(2,3) by (simp_all add: k_def)
    have k1: "1 \<le> k"
    proof (rule ccontr)
      assume "\<not> 1 \<le> k"
      then have "k = 0" by simp
      with ih(2) pos show False by simp
    qed
    then have pk: "base ^ k = base * base ^ (k - 1)"
      by (metis One_nat_def Suc_pred less_eq_Suc_le power_Suc)
    have "base * (num div base) \<le> num" by simp
    moreover have "base * base ^ (k - 1) \<le> base * (num div base)"
      using ih(1) by simp
    ultimately have lo: "base ^ k \<le> num" using pk by linarith
    have "num < base * (num div base) + base"
      using mod_less_divisor[of base num] mult_div_mod_eq[of base num] 1(2) by linarith
    moreover have "base * (num div base) + base \<le> base * base ^ k"
    proof -
      have "num div base + 1 \<le> base ^ k" using ih(2) by simp
      then have "base * (num div base + 1) \<le> base * base ^ k" by (rule mult_le_mono2)
      then show ?thesis by simp
    qed
    ultimately have hi: "num < base ^ (1 + k)" by simp
    show ?thesis using lo hi step by (simp add: k_def)
  qed
qed

lemma T_max_largest_magnitude:
  assumes "0 < bits T"
  shows "max (to_unsigned T (numeric_limits_max T)) (to_unsigned T (numeric_limits_min T))
         = largest_magnitude T"
proof (cases "is_signed T")
  case False
  have "(2::int) ^ bits T - 1 < 2 ^ bits T" by simp
  moreover have "0 \<le> (2::int) ^ bits T - 1" by simp
  ultimately have "((2::int) ^ bits T - 1) mod 2 ^ bits T = 2 ^ bits T - 1"
    by (rule mod_pos_pos_trivial[OF _ _, rotated])
  then have "to_unsigned T (numeric_limits_max T) = 2 ^ bits T - 1"
    using False by (simp add: to_unsigned_def numeric_limits_max_def nat_diff_distrib nat_power_eq)
  then show ?thesis using False
    by (simp add: largest_magnitude_def to_unsigned_def numeric_limits_min_def)
next
  case True
  obtain n where n: "bits T = Suc n" using assms by (cases "bits T") auto
  have p: "(0::int) < 2 ^ n" by simp
  have a: "((2::int) ^ n - 1) mod 2 ^ Suc n = 2 ^ n - 1"
  proof (rule mod_pos_pos_trivial)
    show "0 \<le> (2::int) ^ n - 1" using p by linarith
    have "(2::int) ^ Suc n = 2 * 2 ^ n" by simp
    then show "(2::int) ^ n - 1 < 2 ^ Suc n" using p by linarith
  qed
  have "(- ((2::int) ^ n)) mod 2 ^ Suc n = (2 ^ Suc n - 2 ^ n) mod 2 ^ Suc n"
    by (metis mod_add_self1 uminus_add_conv_diff add.commute)
  also have "\<dots> = 2 ^ n"
    by simp
  finally have b: "(- ((2::int) ^ n)) mod 2 ^ Suc n = 2 ^ n" .
  have mx: "numeric_limits_max T = 2 ^ n - 1" and mn: "numeric_limits_min T = - (2 ^ n)"
    using True by (simp_all add: numeric_limits_max_def numeric_limits_min_def n)
  have A: "to_unsigned T (numeric_limits_max T) = 2 ^ n - 1"
    unfolding to_unsigned_def mx n a using p by (simp add: nat_diff_distrib nat_power_eq)
  have B: "to_unsigned T (numeric_limits_min T) = 2 ^ n"
    unfolding to_unsigned_def mn n b by (simp add: nat_power_eq)
  show ?thesis using True
    unfolding A B by (simp add: largest_magnitude_def n)
qed

lemma largest_magnitude_pos: "0 < bits T \<Longrightarrow> 0 < largest_magnitude T"
proof -
  assume "0 < bits T"
  then have "(2::nat) ^ 1 \<le> 2 ^ bits T" by (intro power_increasing) simp_all
  then show ?thesis by (simp add: largest_magnitude_def)
qed

lemma get_max_digits_bounds:
  assumes "base = 2 \<or> base = 8 \<or> base = 10 \<or> base = 16" and "0 < bits T"
  shows "base ^ (get_max_digits T base - 1) \<le> largest_magnitude T
         \<and> largest_magnitude T < base ^ get_max_digits T base"
proof -
  have g: "get_max_digits T base = get_max_digits_aux (largest_magnitude T) base"
    using assms(1) by (auto simp: get_max_digits_def T_max_largest_magnitude[OF assms(2)])
  have "2 \<le> base" using assms(1) by auto
  then show ?thesis
    unfolding g by (rule get_max_digits_aux_bounds[OF _ largest_magnitude_pos[OF assms(2)]])
qed

lemma digits_count_unique:
  assumes b: "2 \<le> (b::nat)"
    and m: "b ^ (m - 1) \<le> n" "n < b ^ m"
    and k: "b ^ (k - 1) \<le> n" "n < b ^ k"
  shows "m = k"
proof -
  have b1: "1 < b" using b by simp
  have "b ^ (m - 1) < b ^ k" using m(1) k(2) by linarith
  then have 1: "m - 1 < k" by (rule power_less_imp_less_exp[OF b1])
  have "b ^ (k - 1) < b ^ m" using k(1) m(2) by linarith
  then have 2: "k - 1 < m" by (rule power_less_imp_less_exp[OF b1])
  have "0 < b ^ (k - 1)" using b by simp
  then have "0 < n" using k(1) by linarith
  then have "m \<noteq> 0" "k \<noteq> 0" using m(2) k(2) by (auto intro: ccontr)
  with 1 2 show ?thesis by linarith
qed

text \<open>
  C7, as stated, fails when the requested digit count exceeds what the type needs: the
  signed 8-bit value \<open>5\<close> with base 16 and 8 digits, zero-padded, is rendered as \<open> 0x05\<close>,
  whose numeral portion \<open>05\<close> has 2 characters, not 8.
\<close>

theorem export_arithmetic_int_digits_clamped:
  "export_arithmetic_int \<lparr>is_signed = True, bits = 8\<rparr> 5
     (default_command\<lparr>int_style := Some (16, 8, 0, False, False)\<rparr>)
     = Some [Styled Signed_number '' 0x05'']
   \<and> numeral_portion 16 [Styled Signed_number '' 0x05''] = ''05''
   \<and> length ''05'' < (8 :: nat)"
  by code_simp

text \<open>
  C7, amended: for every integer value of an integral type rendered with an integer style
  of radix 2, 8, 10 or 16 that requests the minimum digit count \<open>d\<close> and zero-padding, the
  numeral portion of the output has length at least the smaller of \<open>d\<close> and \<open>max_digits\<close>,
  where \<open>max_digits\<close> is the number of digits the type's largest magnitude needs in the
  radix: \<open>base ^ (max_digits - 1) \<le> magnitude < base ^ max_digits\<close>.
\<close>

theorem export_arithmetic_int_min_digits:
  assumes "int_style command = Some (base, d, chunk, False, u)"
    and "base = 2 \<or> base = 8 \<or> base = 10 \<or> base = 16"
    and "0 < bits T"
  shows "\<exists>out max_digits.
           export_arithmetic_int T v command = Some out
           \<and> base ^ (max_digits - 1) \<le> largest_magnitude T
           \<and> largest_magnitude T < base ^ max_digits
           \<and> min d max_digits \<le> length (numeral_portion base out)"
proof -
  have "\<exists>out. export_arithmetic_int T v command = Some out
           \<and> min d (get_max_digits T base) \<le> length (numeral_portion base out)"
  proof (cases "base = 10 \<and> d = 0 \<and> chunk = 0")
    case True
    then show ?thesis using assms(1) by (simp add: export_arithmetic_int_def)
  next
    case False
    from export_arithmetic_int_numeral[OF assms(1) False refl refl refl, of T v]
    show ?thesis by auto
  qed
  then show ?thesis
    using get_max_digits_bounds[OF assms(2,3)] by blast
qed

theorem export_arithmetic_int_min_digits_witness:
  "int_style (default_command\<lparr>int_style := Some (16, 20, 0, False, False)\<rparr>)
     = Some (16, 20, 0, False, False)
   \<and> ((16::nat) = 2 \<or> (16::nat) = 8 \<or> (16::nat) = 10 \<or> (16::nat) = 16)
   \<and> 0 < bits \<lparr>is_signed = True, bits = 64\<rparr>
   \<and> (\<exists>out. export_arithmetic_int \<lparr>is_signed = True, bits = 64\<rparr> (- 5)
               (default_command\<lparr>int_style := Some (16, 20, 0, False, False)\<rparr>) = Some out
            \<and> 16 \<le> length (numeral_portion 16 out))"
proof -
  let ?T = "\<lparr>is_signed = True, bits = 64\<rparr>"
  have s: "int_style (default_command\<lparr>int_style := Some (16, 20, 0, False, False)\<rparr>)
             = Some (16, 20, 0, False, False)"
    by simp
  have b: "(16::nat) = 2 \<or> (16::nat) = 8 \<or> (16::nat) = 10 \<or> (16::nat) = 16" by simp
  have w: "0 < bits ?T" by simp
  from export_arithmetic_int_min_digits[OF s b w, of "- 5"]
  obtain out m where out: "export_arithmetic_int ?T (- 5)
               (default_command\<lparr>int_style := Some (16, 20, 0, False, False)\<rparr>) = Some out"
    and lo: "16 ^ (m - 1) \<le> largest_magnitude ?T"
    and hi: "largest_magnitude ?T < 16 ^ m"
    and len: "min 20 m \<le> length (numeral_portion 16 out)"
    by blast
  have "(16::nat) ^ (16 - 1) \<le> largest_magnitude ?T" "largest_magnitude ?T < (16::nat) ^ 16"
    by (simp_all add: largest_magnitude_def)
  with lo hi have "m = 16"
    by (intro digits_count_unique[of 16 m "largest_magnitude ?T" 16]) simp_all
  with len have "16 \<le> length (numeral_portion 16 out)" by simp
  with out s b w show ?thesis by blast
qed

section \<open>Properties of the container formatter\<close>

text \<open>
  C5: an empty container (\<^verbatim>\<open>begin\<close> equals \<^verbatim>\<open>end\<close>) is rendered as the bracket token
  \<open>[ ]\<close>, whatever the elements' type, the collaborators and the depth, also at or beyond
  the maximum depth.
\<close>

theorem export_container_empty:
  "is_empty_iterable container \<Longrightarrow>
   export_container E opts container indent last_line_length current_depth fail_on_newline
     command = [Styled (Bracket current_depth) ''[ ]'']"
  by (simp add: export_container_def es_bracket_def)

theorem export_container_empty_witness:
  "is_empty_iterable ([] :: bool list)
   \<and> max_depth \<lparr>max_line_width = 160, max_depth = 4, cont_indent_style = always\<rparr> \<le> 7
   \<and> export_container bool_elements
        \<lparr>max_line_width = 160, max_depth = 4, cont_indent_style = always\<rparr>
        [] [] 0 7 True default_command = [Styled (Bracket 7) ''[ ]'']"
  using export_container_empty
          [of "[] :: bool list" bool_elements
              "\<lparr>max_line_width = 160, max_depth = 4, cont_indent_style = always\<rparr>"
              "[]" 0 7 True default_command]
  by (simp add: is_empty_iterable_def iterable_begin_def iterable_end_def)

text \<open>
  C6: a non-empty container at or beyond the maximum depth is rendered as the placeholder
  \<open>[ ... ]\<close> (bracket, operator and bracket tokens). The result does not depend on the
  elements, the skip plan or the dispatcher: none of them is consulted.
\<close>

theorem export_container_depth_limit:
  "\<not> is_empty_iterable container \<Longrightarrow> max_depth opts \<le> current_depth \<Longrightarrow>
   export_container E opts container indent last_line_length current_depth fail_on_newline
     command
   = [Styled (Bracket current_depth) ''[ '', Styled Op ''...'',
      Styled (Bracket current_depth) '' ]'']"
  by (simp add: export_container_def es_bracket_def es_op_def)

theorem export_container_depth_limit_witness:
  "\<not> is_empty_iterable [True, False]
   \<and> max_depth \<lparr>max_line_width = 160, max_depth = 4, cont_indent_style = minimal\<rparr> \<le> 4
   \<and> export_container bool_elements
        \<lparr>max_line_width = 160, max_depth = 4, cont_indent_style = minimal\<rparr>
        [True, False] [] 0 4 False default_command
      = [Styled (Bracket 4) ''[ '', Styled Op ''...'', Styled (Bracket 4) '' ]'']"
  using export_container_depth_limit
          [of "[True, False]"
              "\<lparr>max_line_width = 160, max_depth = 4, cont_indent_style = minimal\<rparr>"
              4 bool_elements "[]" 0 False default_command]
  by (simp add: is_empty_iterable_def iterable_begin_def iterable_end_def)

subsection \<open>The single-line attempt and the candidate\<close>

lemma get_length_append: "get_length (a @ b) = get_length a + get_length b"
  by (simp add: get_length_def plain_def)

lemma has_newline_append: "has_newline (a @ b) = (has_newline a \<or> has_newline b)"
  by (auto simp: has_newline_def plain_def)

lemma candidate_loop_grows:
  "get_length acc
     \<le> get_length (candidate_loop E command indent lll depth entries first acc)"
proof (induction entries arbitrary: first acc)
  case Nil
  show ?case by simp
next
  case (Cons e rest)
  obtain is_ellipsis elem index where e: "e = (is_ellipsis, elem, index)" by (cases e)
  show ?case
    unfolding e candidate_loop.simps Let_def
    by (auto intro!: order_trans[OF _ Cons.IH] simp: get_length_append)
qed

text \<open>
  The single-line loop succeeds exactly when no child rendering has a newline and the whole
  candidate fits, and it then returns the candidate: the running text only grows, so the
  tests on the way are implied by the last one.
\<close>

lemma one_line_loop_eq:
  "one_line_loop E opts command indent lll depth entries first acc =
     (if (\<forall>s\<in>set (child_renderings E command indent lll depth entries first acc).
            \<not> has_newline s)
         \<and> (entries = []
            \<or> lll + get_length (candidate_loop E command indent lll depth entries first acc)
                + 2 \<le> max_line_width opts)
      then Some (candidate_loop E command indent lll depth entries first acc)
      else None)"
proof (induction entries arbitrary: first acc)
  case Nil
  show ?case by simp
next
  case (Cons e rest)
  obtain is_ellipsis elem index where e: "e = (is_ellipsis, elem, index)" by (cases e)
  define out1 where "out1 = (if first then acc else acc @ es_op '', '')"
  show ?case
  proof (cases is_ellipsis)
    case True
    define out2 where "out2 = out1 @ es_op ''...''"
    have l: "one_line_loop E opts command indent lll depth (e # rest) first acc
        = (if lll + get_length out2 + 2 > max_line_width opts then None
           else one_line_loop E opts command indent lll depth rest False out2)"
      by (simp add: e True out1_def out2_def Let_def)
    have c: "candidate_loop E command indent lll depth (e # rest) first acc
        = candidate_loop E command indent lll depth rest False out2"
      by (simp add: e True out1_def out2_def Let_def)
    have r: "child_renderings E command indent lll depth (e # rest) first acc
        = child_renderings E command indent lll depth rest False out2"
      by (simp add: e True out1_def out2_def Let_def)
    have g: "get_length out2 \<le> get_length (candidate_loop E command indent lll depth rest False out2)"
      by (rule candidate_loop_grows)
    have n: "rest = [] \<Longrightarrow> candidate_loop E command indent lll depth rest False out2 = out2"
      by simp
    show ?thesis
      unfolding l c r Cons.IH[of False out2]
      using g n by (cases "rest = []") auto
  next
    case False
    define out2 where "out2 = (if show_index command
                          then out1 @ es_member (to_string (int index)) @ es_op '': ''
                          else out1)"
    define elem_str where "elem_str = export_var E elem indent (lll + get_length out2)
                             (depth + 1) True (next_command E command)"
    define out3 where "out3 = out2 @ elem_str"
    have l: "one_line_loop E opts command indent lll depth (e # rest) first acc
        = (if has_newline elem_str then None
           else if lll + get_length out3 + 2 > max_line_width opts then None
           else one_line_loop E opts command indent lll depth rest False out3)"
      by (simp add: e False out1_def out2_def elem_str_def out3_def Let_def)
    have c: "candidate_loop E command indent lll depth (e # rest) first acc
        = candidate_loop E command indent lll depth rest False out3"
      by (simp add: e False out1_def out2_def elem_str_def out3_def Let_def)
    have r: "child_renderings E command indent lll depth (e # rest) first acc
        = elem_str # child_renderings E command indent lll depth rest False out3"
      by (simp add: e False out1_def out2_def elem_str_def out3_def Let_def)
    have g: "get_length out3 \<le> get_length (candidate_loop E command indent lll depth rest False out3)"
      by (rule candidate_loop_grows)
    have n: "rest = [] \<Longrightarrow> candidate_loop E command indent lll depth rest False out3 = out3"
      by simp
    show ?thesis
      unfolding l c r Cons.IH[of False out3]
      using g n by (cases "rest = []") auto
  qed
qed


lemma has_newline_es [simp]:
  "has_newline (es_op s) = (CHR 0x0A \<in> set s)"
  "has_newline (es_member s) = (CHR 0x0A \<in> set s)"
  "has_newline (es_bracket s d) = (CHR 0x0A \<in> set s)"
  "has_newline [] = False"
  by (simp_all add: has_newline_def plain_def es_op_def es_member_def es_bracket_def)

lemma to_string_nat_no_newline: "CHR 0x0A \<notin> set (to_string (int n))"
proof -
  have "c \<in> set (show_nat 10 n) \<Longrightarrow> c \<noteq> CHR 0x0A" for c
    using show_nat_visible[of 10 c n] visible_digit_neq[of c] by simp
  then show ?thesis by (auto simp: to_string_def)
qed

lemma candidate_loop_no_newline:
  "\<not> has_newline acc \<Longrightarrow>
   (\<forall>s\<in>set (child_renderings E command indent lll depth entries first acc). \<not> has_newline s) \<Longrightarrow>
   \<not> has_newline (candidate_loop E command indent lll depth entries first acc)"
proof (induction entries arbitrary: first acc)
  case Nil
  then show ?case by simp
next
  case (Cons e rest)
  obtain is_ellipsis elem index where e: "e = (is_ellipsis, elem, index)" by (cases e)
  define out1 where "out1 = (if first then acc else acc @ es_op '', '')"
  have n1: "\<not> has_newline out1" using Cons.prems(1) by (simp add: out1_def has_newline_append)
  show ?case
  proof (cases is_ellipsis)
    case True
    define out2 where "out2 = out1 @ es_op ''...''"
    have c: "candidate_loop E command indent lll depth (e # rest) first acc
        = candidate_loop E command indent lll depth rest False out2"
      by (simp add: e True out1_def out2_def Let_def)
    have r: "child_renderings E command indent lll depth (e # rest) first acc
        = child_renderings E command indent lll depth rest False out2"
      by (simp add: e True out1_def out2_def Let_def)
    have n2: "\<not> has_newline out2" using n1 by (simp add: out2_def has_newline_append)
    show ?thesis
      unfolding c using Cons.prems(2) unfolding r by (rule Cons.IH[OF n2])
  next
    case False
    define out2 where "out2 = (if show_index command
                          then out1 @ es_member (to_string (int index)) @ es_op '': ''
                          else out1)"
    define elem_str where "elem_str = export_var E elem indent (lll + get_length out2)
                             (depth + 1) True (next_command E command)"
    define out3 where "out3 = out2 @ elem_str"
    have c: "candidate_loop E command indent lll depth (e # rest) first acc
        = candidate_loop E command indent lll depth rest False out3"
      by (simp add: e False out1_def out2_def elem_str_def out3_def Let_def)
    have r: "child_renderings E command indent lll depth (e # rest) first acc
        = elem_str # child_renderings E command indent lll depth rest False out3"
      by (simp add: e False out1_def out2_def elem_str_def out3_def Let_def)
    have n2: "\<not> has_newline out2"
      using n1 by (simp add: out2_def has_newline_append to_string_nat_no_newline)
    have n3: "\<not> has_newline out3"
      using n2 Cons.prems(2) unfolding r by (simp add: out3_def has_newline_append)
    have rest: "\<forall>s\<in>set (child_renderings E command indent lll depth rest False out3).
                  \<not> has_newline s"
      using Cons.prems(2) unfolding r by simp
    show ?thesis
      unfolding c using rest by (rule Cons.IH[OF n3])
  qed
qed

lemma one_line_attempt:
  "one_line_loop E opts command indent lll depth entries True (es_bracket ''[ '' depth) =
     (if (\<forall>s\<in>set (one_line_children E command indent lll depth entries). \<not> has_newline s)
         \<and> (entries = []
            \<or> lll + get_length (one_line_candidate E command indent lll depth entries)
                \<le> max_line_width opts)
      then Some (candidate_loop E command indent lll depth entries True (es_bracket ''[ '' depth))
      else None)"
proof -
  have "get_length (one_line_candidate E command indent lll depth entries)
      = get_length (candidate_loop E command indent lll depth entries True (es_bracket ''[ '' depth)) + 2"
    by (simp add: one_line_candidate_def get_length_append) (simp add: get_length_def plain_def es_bracket_def)
  then show ?thesis
    unfolding one_line_loop_eq one_line_children_def by simp
qed

text \<open>
  C1: for a container that reaches the layout decision (non-empty and below the maximum
  depth: the other containers are rendered on one line by the two short-circuits), when the
  formatter is called with \<^verbatim>\<open>fail_on_newline\<close> set and the single-line rendering is not
  possible, because the indent-shift policy forces indentation, or a child's rendering
  contains a newline, or the candidate overflows the maximum width, the result is the one
  raw string made of a newline; it holds no text of any element.
\<close>

theorem export_container_newline_sentinel:
  assumes "\<not> is_empty_iterable container"
    and "current_depth < max_depth opts"
    and "entries = create_skip_container E command container"
    and "shift_indent_policy E opts
         \<or> (\<exists>s\<in>set (one_line_children E command indent last_line_length current_depth entries).
               has_newline s)
         \<or> (entries \<noteq> []
            \<and> max_line_width opts
                < last_line_length
                  + get_length (one_line_candidate E command indent last_line_length
                                  current_depth entries))"
  shows "export_container E opts container indent last_line_length current_depth True command
         = [Raw [CHR 0x0A]]"
proof -
  have "(if \<not> shift_indent_policy E opts
         then one_line_loop E opts command indent last_line_length current_depth entries True
                (es_bracket ''[ '' current_depth)
         else None) = None"
    using assms(4) unfolding one_line_attempt by auto
  then show ?thesis
    using assms(1,2) unfolding export_container_def assms(3)[symmetric] Let_def by simp
qed

theorem export_container_newline_sentinel_witness:
  "\<not> is_empty_iterable [[True, False, True]]
   \<and> 0 < max_depth (options_of_width 20)
   \<and> (\<exists>s\<in>set (one_line_children (nested_bool_elements (options_of_width 20))
                  default_command [] 0 0
                  (create_skip_container (nested_bool_elements (options_of_width 20))
                     default_command [[True, False, True]])).
         has_newline s)
   \<and> export_container (nested_bool_elements (options_of_width 20)) (options_of_width 20)
        [[True, False, True]] [] 0 0 True default_command = [Raw [CHR 0x0A]]"
proof -
  let ?E = "nested_bool_elements (options_of_width 20)"
  let ?entries = "create_skip_container ?E default_command [[True, False, True]]"
  have h1: "\<not> is_empty_iterable [[True, False, True]]" by code_simp
  have h2: "0 < max_depth (options_of_width 20)" by code_simp
  have h4: "\<exists>s\<in>set (one_line_children ?E default_command [] 0 0 ?entries). has_newline s"
    by code_simp
  from h4 have h4': "shift_indent_policy ?E (options_of_width 20)
     \<or> (\<exists>s\<in>set (one_line_children ?E default_command [] 0 0 ?entries). has_newline s)
     \<or> (?entries \<noteq> []
        \<and> max_line_width (options_of_width 20)
            < 0 + get_length (one_line_candidate ?E default_command [] 0 0 ?entries))"
    by blast
  show ?thesis
    using export_container_newline_sentinel[OF h1 h2 refl h4'] h1 h2 h4 by blast
qed

subsection \<open>The multi-line loop and the layout\<close>

text \<open>
  The multi-line loop builds the multi-line layout: the column it hands to the dispatcher
  is measured on the text after the newline it has just written.
\<close>

lemma takeWhile_append_stop: "\<not> P y \<Longrightarrow> takeWhile P (xs @ y # ys) = takeWhile P xs"
  by (induction xs) simp_all

lemma get_last_line_length_after_newline:
  "get_last_line_length (pre @ Raw [CHR 0x0A] # post) = get_last_line_length post"
proof -
  have "rev (plain (pre @ Raw [CHR 0x0A] # post))
        = rev (plain post) @ CHR 0x0A # rev (plain pre)"
    by (simp add: plain_def)
  then show ?thesis
    by (simp add: get_last_line_length_def takeWhile_append_stop)
qed

lemma multi_line_loop_layout:
  "multi_line_loop E command new_indent depth entries first acc
     = acc @ (if first
              then comma_separated (map (entry_line E command new_indent depth) entries)
              else concat (map (\<lambda>x. es_op '','' @ x)
                             (map (entry_line E command new_indent depth) entries)))"
proof (induction entries arbitrary: first acc)
  case Nil
  show ?case by (simp add: comma_separated_def)
next
  case (Cons e rest)
  obtain is_ellipsis elem index where e: "e = (is_ellipsis, elem, index)" by (cases e)
  define out1 where "out1 = (if first then acc else acc @ es_op '','')"
  have shape: "acc @ (if first
              then comma_separated (map (entry_line E command new_indent depth) (e # rest))
              else concat (map (\<lambda>x. es_op '','' @ x)
                             (map (entry_line E command new_indent depth) (e # rest))))
        = out1 @ entry_line E command new_indent depth e
          @ concat (map (\<lambda>x. es_op '','' @ x)
                      (map (entry_line E command new_indent depth) rest))"
    by (simp add: out1_def comma_separated_def)
  show ?case
  proof (cases is_ellipsis)
    case True
    have "multi_line_loop E command new_indent depth (e # rest) first acc
        = multi_line_loop E command new_indent depth rest False
            (out1 @ [Raw [CHR 0x0A], Raw new_indent] @ es_op ''...'')"
      by (simp add: e True out1_def Let_def)
    also have "\<dots> = (out1 @ [Raw [CHR 0x0A], Raw new_indent] @ es_op ''...'')
          @ concat (map (\<lambda>x. es_op '','' @ x)
                      (map (entry_line E command new_indent depth) rest))"
      by (simp add: Cons.IH)
    also have "\<dots> = out1 @ entry_line E command new_indent depth e
          @ concat (map (\<lambda>x. es_op '','' @ x)
                      (map (entry_line E command new_indent depth) rest))"
      by (simp add: e True entry_line_def)
    finally show ?thesis unfolding shape .
  next
    case False
    define out2 where "out2 = out1 @ [Raw [CHR 0x0A], Raw new_indent] @ index_label command index"
    have col: "get_last_line_length out2
                 = get_last_line_length (Raw new_indent # index_label command index)"
      using get_last_line_length_after_newline
              [of out1 "Raw new_indent # index_label command index"]
      by (simp add: out2_def)
    have "multi_line_loop E command new_indent depth (e # rest) first acc
        = multi_line_loop E command new_indent depth rest False
            (out2 @ export_var E elem new_indent (get_last_line_length out2)
                             (depth + 1) False (next_command E command))"
      by (simp add: e False out1_def out2_def index_label_def Let_def)
    also have "\<dots> = (out2 @ export_var E elem new_indent (get_last_line_length out2)
                             (depth + 1) False (next_command E command))
          @ concat (map (\<lambda>x. es_op '','' @ x)
                      (map (entry_line E command new_indent depth) rest))"
      by (simp add: Cons.IH)
    also have "\<dots> = out1 @ entry_line E command new_indent depth e
          @ concat (map (\<lambda>x. es_op '','' @ x)
                      (map (entry_line E command new_indent depth) rest))"
      unfolding col by (simp add: e False entry_line_def out2_def)
    finally show ?thesis unfolding shape .
  qed
qed

lemma multi_line_part:
  "multi_line_loop E command (indent @ ''  '') depth entries True (es_bracket ''['' depth)
     @ [Raw [CHR 0x0A], Raw indent] @ es_bracket '']'' depth
   = multi_line_layout E command indent depth entries"
  by (simp add: multi_line_loop_layout multi_line_layout_def)


text \<open>
  C2, as stated, fails in both halves. A one-element container of booleans whose candidate
  \<open>[ true ]\<close> fits in 160 columns is rendered on three lines under the policy that always
  indents. And with a maximum width of 6 the container of \<open>true\<close> and \<open>false\<close> is rendered
  with the line \<open>  true,\<close> of 7 columns, although neither element alone exceeds the width.
\<close>

theorem export_container_layout_not_by_width:
  "(0 + get_length (one_line_candidate bool_elements default_command [] 0 0
                     (show_all default_command [True])) \<le> 160
    \<and> plain (export_container bool_elements
               \<lparr>max_line_width = 160, max_depth = 4, cont_indent_style = always\<rparr>
               [True] [] 0 0 False default_command)
        = ''['' @ [CHR 0x0A] @ ''  true'' @ [CHR 0x0A] @ '']'')
   \<and> (plain (export_container bool_elements
               \<lparr>max_line_width = 6, max_depth = 4, cont_indent_style = minimal\<rparr>
               [True, False] [] 0 0 False default_command)
        = ''['' @ [CHR 0x0A] @ ''  true,'' @ [CHR 0x0A] @ ''  false'' @ [CHR 0x0A] @ '']''
      \<and> 6 < length ''  true,'' \<and> length ''true'' \<le> 6 \<and> length ''false'' \<le> 6)"
  by code_simp

text \<open>
  C2, amended: for a non-empty container below the maximum depth, with the entries of its
  skip plan: when the indent policy does not force indentation, no child's rendering
  contains a newline and the single-line candidate, measured without markup from the
  caller's \<^verbatim>\<open>last_line_length\<close>, fits within the maximum width, the formatter returns the
  candidate, which is one line; when the policy forces indentation, or a child's rendering
  contains a newline, or the candidate does not fit, and \<^verbatim>\<open>fail_on_newline\<close> is clear, it
  returns the multi-line layout: the opening bracket, every entry on a line of its own at
  the indent plus two spaces, commas between them, and the closing bracket on its own line
  at the indent. Nothing is promised about the length of the lines of that layout.
\<close>

theorem export_container_layout:
  assumes "\<not> is_empty_iterable container"
    and "current_depth < max_depth opts"
    and "entries = create_skip_container E command container"
  shows "(\<not> shift_indent_policy E opts
          \<and> (\<forall>s\<in>set (one_line_children E command indent last_line_length current_depth entries).
                \<not> has_newline s)
          \<and> last_line_length
               + get_length (one_line_candidate E command indent last_line_length
                               current_depth entries) \<le> max_line_width opts
          \<longrightarrow> export_container E opts container indent last_line_length current_depth
                 fail_on_newline command
               = one_line_candidate E command indent last_line_length current_depth entries
              \<and> \<not> has_newline (export_container E opts container indent last_line_length
                                 current_depth fail_on_newline command))
       \<and> ((shift_indent_policy E opts
            \<or> (\<exists>s\<in>set (one_line_children E command indent last_line_length current_depth
                           entries). has_newline s)
            \<or> (entries \<noteq> []
               \<and> max_line_width opts
                   < last_line_length
                     + get_length (one_line_candidate E command indent last_line_length
                                     current_depth entries)))
           \<and> \<not> fail_on_newline
          \<longrightarrow> export_container E opts container indent last_line_length current_depth
                 fail_on_newline command
               = multi_line_layout E command indent current_depth entries
              \<and> has_newline (export_container E opts container indent last_line_length
                                 current_depth fail_on_newline command))"
proof (intro conjI impI)
  assume a: "\<not> shift_indent_policy E opts
          \<and> (\<forall>s\<in>set (one_line_children E command indent last_line_length current_depth entries).
                \<not> has_newline s)
          \<and> last_line_length
               + get_length (one_line_candidate E command indent last_line_length
                               current_depth entries) \<le> max_line_width opts"
  then have "one_line_loop E opts command indent last_line_length current_depth entries True
                (es_bracket ''[ '' current_depth)
        = Some (candidate_loop E command indent last_line_length current_depth entries True
                  (es_bracket ''[ '' current_depth))"
    unfolding one_line_attempt by simp
  then show r: "export_container E opts container indent last_line_length current_depth
                 fail_on_newline command
               = one_line_candidate E command indent last_line_length current_depth entries"
    using assms(1,2) a
    unfolding export_container_def assms(3)[symmetric] Let_def one_line_candidate_def by simp
  have "\<not> has_newline (candidate_loop E command indent last_line_length current_depth entries
                         True (es_bracket ''[ '' current_depth))"
    using a by (intro candidate_loop_no_newline) (simp_all add: one_line_children_def)
  then show "\<not> has_newline (export_container E opts container indent last_line_length
                                 current_depth fail_on_newline command)"
    unfolding r one_line_candidate_def by (simp add: has_newline_append)
next
  assume b: "(shift_indent_policy E opts
            \<or> (\<exists>s\<in>set (one_line_children E command indent last_line_length current_depth
                           entries). has_newline s)
            \<or> (entries \<noteq> []
               \<and> max_line_width opts
                   < last_line_length
                     + get_length (one_line_candidate E command indent last_line_length
                                     current_depth entries)))
           \<and> \<not> fail_on_newline"
  then have "(if \<not> shift_indent_policy E opts
         then one_line_loop E opts command indent last_line_length current_depth entries True
                (es_bracket ''[ '' current_depth)
         else None) = None"
    unfolding one_line_attempt by auto
  then show r: "export_container E opts container indent last_line_length current_depth
                 fail_on_newline command
               = multi_line_layout E command indent current_depth entries"
    using assms(1,2) b
    unfolding export_container_def assms(3)[symmetric] Let_def multi_line_part[symmetric]
    by simp
  show "has_newline (export_container E opts container indent last_line_length
                                 current_depth fail_on_newline command)"
    unfolding r multi_line_layout_def
    by (simp add: has_newline_append) (simp add: has_newline_def plain_def)
qed

theorem export_container_layout_witness:
  "\<not> is_empty_iterable [True, False]
   \<and> 0 < max_depth (options_of_width 160)
   \<and> \<not> shift_indent_policy bool_elements (options_of_width 160)
   \<and> list_all (\<lambda>s. \<not> has_newline s)
         (one_line_children bool_elements default_command [] 0 0
            (create_skip_container bool_elements default_command [True, False]))
   \<and> 0 + get_length (one_line_candidate bool_elements default_command [] 0 0
                       (create_skip_container bool_elements default_command [True, False]))
       \<le> max_line_width (options_of_width 160)
   \<and> plain (export_container bool_elements (options_of_width 160) [True, False] [] 0 0 False
              default_command) = ''[ true, false ]''
   \<and> \<not> has_newline (export_container bool_elements (options_of_width 160) [True, False]
                       [] 0 0 False default_command)
   \<and> max_line_width (options_of_width 6)
       < 0 + get_length (one_line_candidate bool_elements default_command [] 0 0
                           (create_skip_container bool_elements default_command [True, False]))
   \<and> plain (export_container bool_elements (options_of_width 6) [True, False] [] 0 0 False
              default_command)
       = ''['' @ [CHR 0x0A] @ ''  true,'' @ [CHR 0x0A] @ ''  false'' @ [CHR 0x0A] @ '']''
   \<and> has_newline (export_container bool_elements (options_of_width 6) [True, False]
                     [] 0 0 False default_command)"
proof -
  let ?entries = "create_skip_container bool_elements default_command [True, False]"
  have h1: "\<not> is_empty_iterable [True, False]" by code_simp
  have h2: "0 < max_depth (options_of_width 160)" by code_simp
  have h2': "0 < max_depth (options_of_width 6)" by code_simp
  have h3: "\<not> shift_indent_policy bool_elements (options_of_width 160)" by code_simp
  have h4: "\<forall>s\<in>set (one_line_children bool_elements default_command [] 0 0 ?entries).
              \<not> has_newline s"
    by code_simp
  have h5: "0 + get_length (one_line_candidate bool_elements default_command [] 0 0 ?entries)
              \<le> max_line_width (options_of_width 160)"
    by code_simp
  have h6: "?entries \<noteq> []" by code_simp
  have h7: "max_line_width (options_of_width 6)
              < 0 + get_length (one_line_candidate bool_elements default_command [] 0 0 ?entries)"
    by code_simp
  have c: "plain (one_line_candidate bool_elements default_command [] 0 0 ?entries)
             = ''[ true, false ]''"
    by code_simp
  have m: "plain (multi_line_layout bool_elements default_command [] 0 ?entries)
             = ''['' @ [CHR 0x0A] @ ''  true,'' @ [CHR 0x0A] @ ''  false'' @ [CHR 0x0A] @ '']''"
    by code_simp
  have r1: "export_container bool_elements (options_of_width 160) [True, False] [] 0 0 False
              default_command
            = one_line_candidate bool_elements default_command [] 0 0 ?entries
          \<and> \<not> has_newline (export_container bool_elements (options_of_width 160)
                              [True, False] [] 0 0 False default_command)"
    using export_container_layout
            [OF h1 h2 refl, where indent = "[]" and last_line_length = 0
               and fail_on_newline = False] h3 h4 h5 by blast
  have r2: "export_container bool_elements (options_of_width 6) [True, False] [] 0 0 False
              default_command
            = multi_line_layout bool_elements default_command [] 0 ?entries
          \<and> has_newline (export_container bool_elements (options_of_width 6) [True, False]
                     [] 0 0 False default_command)"
    using export_container_layout
            [OF h1 h2' refl, where indent = "[]" and last_line_length = 0
               and fail_on_newline = False] h6 h7 by blast
  have p1: "plain (export_container bool_elements (options_of_width 160) [True, False] [] 0 0
                     False default_command) = ''[ true, false ]''"
    using r1 c by simp
  have p2: "plain (export_container bool_elements (options_of_width 6) [True, False] [] 0 0
                     False default_command)
              = ''['' @ [CHR 0x0A] @ ''  true,'' @ [CHR 0x0A] @ ''  false'' @ [CHR 0x0A] @ '']''"
    using r2 m by simp
  have h4': "list_all (\<lambda>s. \<not> has_newline s)
               (one_line_children bool_elements default_command [] 0 0 ?entries)"
    using h4 by (simp add: list_all_iff)
  show ?thesis
    using h1 h2 h3 h4' h5 h7 p1 p2 r1 r2 by blast
qed

end
